theory Spec2Isabelle
  imports Main
begin

section \<open>The snake game of SnakeGame.jsx\<close>

text \<open>
  The component keeps its whole game in React state cells and changes them from three
  places: the input handlers, the interval callback of the game loop, and the control
  buttons. The model below is a record of those state cells and one function for each
  handler, written in the order of the source. Coordinates are JavaScript numbers that
  only ever hold integers, so they are modelled as \<open>int\<close>.
\<close>

subsection \<open>Configuration and data\<close>

definition GRID_SIZE :: int where
  "GRID_SIZE = 20"

text \<open>
  Cells and directions are both objects \<open>{x, y}\<close> in the source. The fields are called
  \<open>px\<close> and \<open>py\<close> here, since \<open>x\<close> and \<open>y\<close> would shadow every variable of that name.
\<close>

record point =
  px :: int
  py :: int

text \<open>
  The state cells of the component (\<open>useState\<close>), the entry \<open>snake_high_score\<close> of
  \<open>localStorage\<close> (absent, or the number whose decimal string is stored), and the number of
  calls of \<open>Math.random\<close> made so far, which is the hidden state of the random generator.
\<close>

record game =
  snake :: "point list"
  direction :: point
  food :: point
  running :: bool
  speed :: int
  score :: int
  gameOver :: bool
  highScore :: int
  snake_high_score :: "int option"
  random_calls :: nat

text \<open>
  A random source gives, for the \<open>n\<close>-th call of \<open>Math.random\<close>, the value of
  \<open>Math.floor(Math.random() * GRID_SIZE)\<close> at that call.
\<close>

type_synonym random_source = "nat \<Rightarrow> int"

datatype error = TypeError

subsection \<open>Helpers\<close>

text \<open>
  The operator \<open>%\<close> of JavaScript is the remainder of the division that truncates towards
  zero: the result has the sign of the dividend. The divisor is \<open>GRID_SIZE\<close> at every use.
\<close>

definition js_rem :: "int \<Rightarrow> int \<Rightarrow> int" where
  "js_rem a b = sgn a * (\<bar>a\<bar> mod \<bar>b\<bar>)"

text \<open>
  \<open>randomFoodPosition\<close> is a \<open>while (true)\<close> loop that draws \<open>x\<close>, then \<open>y\<close>, and returns
  the cell when no element of \<open>exclude\<close> has both coordinates. The result carries the
  number of draws made; \<open>None\<close> is the loop that never returns.
\<close>

partial_function (option) randomFoodPosition ::
  "random_source \<Rightarrow> point list \<Rightarrow> nat \<Rightarrow> (point \<times> nat) option" where
  "randomFoodPosition rnd exclude n =
     (if \<not> list_ex (\<lambda>p. px p = rnd n \<and> py p = rnd (Suc n)) exclude
      then Some (\<lparr>px = rnd n, py = rnd (Suc n)\<rparr>, n + 2)
      else randomFoodPosition rnd exclude (n + 2))"

definition positionsEqual :: "point \<Rightarrow> point \<Rightarrow> bool" where
  "positionsEqual a b \<longleftrightarrow> px a = px b \<and> py a = py b"

definition oppositeDirection :: "point \<Rightarrow> point \<Rightarrow> bool" where
  "oppositeDirection d1 d2 \<longleftrightarrow> px d1 + px d2 = 0 \<and> py d1 + py d2 = 0"

subsection \<open>Input handlers\<close>

text \<open>
  Every change of direction in the source is the call
  \<open>setDirection((prev) => (!oppositeDirection(prev, d) ? d : prev))\<close> for one of the four
  unit vectors \<open>d\<close>; \<open>prev\<close> is the latest value of the one state cell \<open>direction\<close>.
\<close>

definition setDirection :: "point \<Rightarrow> game \<Rightarrow> game" where
  "setDirection d s =
     s\<lparr>direction := (if \<not> oppositeDirection (direction s) d then d else direction s)\<rparr>"

definition onKey :: "string \<Rightarrow> game \<Rightarrow> game" where
  "onKey key s =
     (if \<not> running s then s
      else if key = ''ArrowUp'' \<or> key = ''w'' \<or> key = ''W''
        then setDirection \<lparr>px = 0, py = - 1\<rparr> s
      else if key = ''ArrowDown'' \<or> key = ''s'' \<or> key = ''S''
        then setDirection \<lparr>px = 0, py = 1\<rparr> s
      else if key = ''ArrowLeft'' \<or> key = ''a'' \<or> key = ''A''
        then setDirection \<lparr>px = - 1, py = 0\<rparr> s
      else if key = ''ArrowRight'' \<or> key = ''d'' \<or> key = ''D''
        then setDirection \<lparr>px = 1, py = 0\<rparr> s
      else if key = '' '' then s\<lparr>running := \<not> running s\<rparr>
      else s)"

subsection \<open>Game loop\<close>

text \<open>
  The head of the next step: the first cell plus the direction, each coordinate passed
  through \<open>(c + GRID_SIZE) % GRID_SIZE\<close>.
\<close>

definition new_head :: "point \<Rightarrow> point \<Rightarrow> point" where
  "new_head h d =
     \<lparr>px = js_rem (px h + px d + GRID_SIZE) GRID_SIZE,
      py = js_rem (py h + py d + GRID_SIZE) GRID_SIZE\<rparr>"

text \<open>
  One firing of the interval callback: the updater given to \<open>setSnake\<close>, together with the
  state changes it requests. The updater reads \<open>direction\<close>, \<open>food\<close> and \<open>score\<close> from
  the render that installed the interval; the effect lists all three as dependencies and
  installs a new interval when one of them changes, so they are the current ones.
  Reading \<open>prev[0].x\<close> of an empty snake throws a TypeError.
\<close>

definition tick :: "random_source \<Rightarrow> game \<Rightarrow> (error + game) option" where
  "tick rnd s =
     (case snake s of
        [] \<Rightarrow> Some (Inl TypeError)
      | h # _ \<Rightarrow>
          (let head = new_head h (direction s) in
           if list_ex (\<lambda>p. positionsEqual p head) (snake s) then
             Some (Inr (s\<lparr>running := False, gameOver := True,
                          highScore := max (highScore s) (score s),
                          snake_high_score := Some (max (highScore s) (score s))\<rparr>))
           else
             (let ateFood = positionsEqual head (food s);
                  newSnake = head # snake s
              in if \<not> ateFood then Some (Inr (s\<lparr>snake := butlast newSnake\<rparr>))
                 else
                   (case randomFoodPosition rnd newSnake (random_calls s) of
                      None \<Rightarrow> None
                    | Some (f, n) \<Rightarrow>
                        Some (Inr (s\<lparr>snake := newSnake, score := score s + 1,
                                     food := f, random_calls := n\<rparr>))))))"

text \<open>The effect installs the interval only while the game runs and is not over.\<close>

definition game_loop :: "random_source \<Rightarrow> game \<Rightarrow> (error + game) option" where
  "game_loop rnd s = (if \<not> running s \<or> gameOver s then Some (Inr s) else tick rnd s)"

subsection \<open>Controls\<close>

definition resetGame :: "random_source \<Rightarrow> game \<Rightarrow> game option" where
  "resetGame rnd s =
     (case randomFoodPosition rnd [] (random_calls s) of
        None \<Rightarrow> None
      | Some (f, n) \<Rightarrow>
          Some (s\<lparr>snake := [\<lparr>px = GRID_SIZE div 2, py = GRID_SIZE div 2\<rparr>],
                  direction := \<lparr>px = 1, py = 0\<rparr>,
                  food := f, score := 0, gameOver := False, running := False,
                  random_calls := n\<rparr>))"

definition handleStart :: "random_source \<Rightarrow> game \<Rightarrow> game option" where
  "handleStart rnd s =
     (case (if gameOver s then resetGame rnd s else Some s) of
        None \<Rightarrow> None
      | Some s' \<Rightarrow> Some (s'\<lparr>running := True, gameOver := False\<rparr>))"

definition handlePause :: "game \<Rightarrow> game" where
  "handlePause s = s\<lparr>running := False\<rparr>"

text \<open>The buttons Toggle, Restart (shown when the game is over) and Reset High of the page.\<close>

definition toggle :: "game \<Rightarrow> game" where
  "toggle s = s\<lparr>running := \<not> running s\<rparr>"

definition restart :: "game \<Rightarrow> game" where
  "restart s = s\<lparr>running := True, gameOver := False\<rparr>"

definition resetHigh :: "game \<Rightarrow> game" where
  "resetHigh s = s\<lparr>highScore := 0, snake_high_score := Some 0\<rparr>"

text \<open>The state setter \<open>setSpeed\<close> stores the number it is given.\<close>

definition setSpeed :: "int \<Rightarrow> game \<Rightarrow> game" where
  "setSpeed v s = s\<lparr>speed := v\<rparr>"

text \<open>
  Modelled from the spec: the range control behind the \<open>input\<close> element of type \<open>range\<close> is the
  browser's and not code of the repository. It holds only rates between its declared
  bounds: a requested rate below \<open>min\<close> is clamped to \<open>min\<close>, one above \<open>max\<close> to \<open>max\<close>.
\<close>

definition range_value :: "int \<Rightarrow> int \<Rightarrow> int \<Rightarrow> int" where
  "range_value lo hi v = (if v < lo then lo else if hi < v then hi else v)"

text \<open>
  The speed slider: a range control with \<open>min={3}\<close> and \<open>max={20}\<close> whose handler is
  \<open>(e) => setSpeed(Number(e.target.value))\<close>; \<open>e.target.value\<close> is the rate the control holds
  for the requested one.
\<close>

definition onChange_speed :: "int \<Rightarrow> game \<Rightarrow> game" where
  "onChange_speed requested s = setSpeed (range_value 3 20 requested) s"

text \<open>What the component reads back from the stored entry \<open>v\<close>: \<open>v ? Number(v) : 0\<close>.\<close>

definition stored_high_score :: "game \<Rightarrow> int" where
  "stored_high_score s = (case snake_high_score s of None \<Rightarrow> 0 | Some k \<Rightarrow> k)"

text \<open>
  The state of a freshly mounted component, from the stored high score \<open>v\<close>:
  \<open>v ? Number(v) : 0\<close>.
\<close>

definition initial :: "random_source \<Rightarrow> int option \<Rightarrow> nat \<Rightarrow> game option" where
  "initial rnd v n0 =
     (case randomFoodPosition rnd [] n0 of
        None \<Rightarrow> None
      | Some (f, n) \<Rightarrow>
          Some \<lparr>snake = [\<lparr>px = GRID_SIZE div 2, py = GRID_SIZE div 2\<rparr>],
                direction = \<lparr>px = 1, py = 0\<rparr>,
                food = f, running = False, speed = 8, score = 0, gameOver = False,
                highScore = (case v of None \<Rightarrow> 0 | Some k \<Rightarrow> k),
                snake_high_score = v, random_calls = n\<rparr>)"

subsection \<open>Sequences of operations\<close>

text \<open>
  The operations of the game that the player or the timer can trigger, and a run of
  several of them; a run stops at the first error and is \<open>None\<close> when a step never
  returns. Reset High is not among them: it is the page's control over the stored value,
  and the cheat button Grow is a debugging aid.
\<close>

datatype operation =
  Tick | Key string | SetDirection point | Start | Pause | Toggle | Restart | Reset
  | SetSpeed int

fun perform :: "random_source \<Rightarrow> operation \<Rightarrow> game \<Rightarrow> (error + game) option" where
  "perform rnd Tick s = game_loop rnd s"
| "perform rnd (Key key) s = Some (Inr (onKey key s))"
| "perform rnd (SetDirection d) s = Some (Inr (setDirection d s))"
| "perform rnd Start s = map_option Inr (handleStart rnd s)"
| "perform rnd Pause s = Some (Inr (handlePause s))"
| "perform rnd Toggle s = Some (Inr (toggle s))"
| "perform rnd Restart s = Some (Inr (restart s))"
| "perform rnd Reset s = map_option Inr (resetGame rnd s)"
| "perform rnd (SetSpeed v) s = Some (Inr (onChange_speed v s))"

fun run :: "random_source \<Rightarrow> operation list \<Rightarrow> game \<Rightarrow> (error + game) option" where
  "run rnd [] s = Some (Inr s)"
| "run rnd (a # as) s =
     (case perform rnd a s of
        None \<Rightarrow> None
      | Some (Inl e) \<Rightarrow> Some (Inl e)
      | Some (Inr s') \<Rightarrow> run rnd as s')"

subsection \<open>Vocabulary of the properties\<close>

text \<open>The cell that the loop of \<open>randomFoodPosition\<close> tries when \<open>n\<close> draws have been made.\<close>

definition candidate :: "random_source \<Rightarrow> nat \<Rightarrow> point" where
  "candidate rnd n = \<lparr>px = rnd n, py = rnd (Suc n)\<rparr>"

definition in_grid :: "point \<Rightarrow> bool" where
  "in_grid c \<longleftrightarrow> 0 \<le> px c \<and> px c < GRID_SIZE \<and> 0 \<le> py c \<and> py c < GRID_SIZE"

definition is_direction :: "point \<Rightarrow> bool" where
  "is_direction d \<longleftrightarrow>
     d = \<lparr>px = 1, py = 0\<rparr> \<or> d = \<lparr>px = - 1, py = 0\<rparr> \<or>
     d = \<lparr>px = 0, py = 1\<rparr> \<or> d = \<lparr>px = 0, py = - 1\<rparr>"

text \<open>What every game reached from a fresh component satisfies.\<close>

definition well_formed :: "game \<Rightarrow> bool" where
  "well_formed s \<longleftrightarrow>
     snake s \<noteq> [] \<and> list_all in_grid (snake s) \<and> is_direction (direction s)"

text \<open>Every cell of the grid, column by column.\<close>

definition all_cells :: "point list" where
  "all_cells =
     concat (map (\<lambda>i. map (\<lambda>j. \<lparr>px = i, py = j\<rparr>) [0..GRID_SIZE - 1]) [0..GRID_SIZE - 1])"

subsection \<open>Concrete games\<close>

text \<open>Three random sources: one that repeats four draws, one that always draws the
  centre, and one that scripts the food of two short games.\<close>

definition draws :: random_source where
  "draws n = (if n mod 4 = 0 then 6 else if n mod 4 = 1 then 5 else if n mod 4 = 2 then 3 else 7)"

definition centre_draws :: random_source where
  "centre_draws n = 10"

definition scripted_draws :: random_source where
  "scripted_draws n = (if n < 12 then [11, 10, 12, 10, 13, 10, 3, 3, 11, 10, 3, 3] ! n else 0)"

text \<open>A snake of five cells whose head is about to run into the fourth.\<close>

definition body_hit_game :: game where
  "body_hit_game =
     \<lparr>snake = [\<lparr>px = 5, py = 5\<rparr>, \<lparr>px = 5, py = 6\<rparr>, \<lparr>px = 4, py = 6\<rparr>,
               \<lparr>px = 4, py = 5\<rparr>, \<lparr>px = 3, py = 5\<rparr>],
      direction = \<lparr>px = - 1, py = 0\<rparr>, food = \<lparr>px = 0, py = 0\<rparr>, running = True,
      speed = 8, score = 4, gameOver = False, highScore = 2, snake_high_score = Some 2,
      random_calls = 0\<rparr>"

text \<open>A snake of four cells in a square, whose head is about to enter the tail cell.\<close>

definition tail_hit_game :: game where
  "tail_hit_game =
     \<lparr>snake = [\<lparr>px = 5, py = 5\<rparr>, \<lparr>px = 5, py = 6\<rparr>, \<lparr>px = 4, py = 6\<rparr>, \<lparr>px = 4, py = 5\<rparr>],
      direction = \<lparr>px = - 1, py = 0\<rparr>, food = \<lparr>px = 0, py = 0\<rparr>, running = True,
      speed = 8, score = 3, gameOver = False, highScore = 0, snake_high_score = None,
      random_calls = 0\<rparr>"

text \<open>A snake of two cells with the food right in front of it.\<close>

definition eating_game :: game where
  "eating_game =
     \<lparr>snake = [\<lparr>px = 5, py = 5\<rparr>, \<lparr>px = 4, py = 5\<rparr>],
      direction = \<lparr>px = 1, py = 0\<rparr>, food = \<lparr>px = 6, py = 5\<rparr>, running = True,
      speed = 8, score = 1, gameOver = False, highScore = 0, snake_high_score = None,
      random_calls = 0\<rparr>"

text \<open>The snake \<open>[(5,5),(4,5),(3,5)]\<close> moving right, with the food elsewhere.\<close>

definition moving_game :: game where
  "moving_game =
     \<lparr>snake = [\<lparr>px = 5, py = 5\<rparr>, \<lparr>px = 4, py = 5\<rparr>, \<lparr>px = 3, py = 5\<rparr>],
      direction = \<lparr>px = 1, py = 0\<rparr>, food = \<lparr>px = 12, py = 7\<rparr>, running = True,
      speed = 8, score = 2, gameOver = False, highScore = 0, snake_high_score = None,
      random_calls = 0\<rparr>"

text \<open>Two snakes of three and of two cells about to cross an edge of the grid.\<close>

definition right_edge_game :: game where
  "right_edge_game =
     \<lparr>snake = [\<lparr>px = 19, py = 7\<rparr>, \<lparr>px = 18, py = 7\<rparr>, \<lparr>px = 17, py = 7\<rparr>],
      direction = \<lparr>px = 1, py = 0\<rparr>, food = \<lparr>px = 12, py = 3\<rparr>, running = True,
      speed = 8, score = 2, gameOver = False, highScore = 0, snake_high_score = None,
      random_calls = 0\<rparr>"

definition left_edge_game :: game where
  "left_edge_game =
     \<lparr>snake = [\<lparr>px = 0, py = 4\<rparr>, \<lparr>px = 1, py = 4\<rparr>],
      direction = \<lparr>px = - 1, py = 0\<rparr>, food = \<lparr>px = 19, py = 4\<rparr>, running = True,
      speed = 8, score = 1, gameOver = False, highScore = 0, snake_high_score = None,
      random_calls = 0\<rparr>"

text \<open>
  A snake of 399 cells that winds through the whole grid row by row, from its head at
  \<open>(1,0)\<close> to its tail at \<open>(0,19)\<close>, moving left towards the food in the one free cell
  \<open>(0,0)\<close>.
\<close>

definition serpentine_row :: "int \<Rightarrow> point list" where
  "serpentine_row j =
     map (\<lambda>i. \<lparr>px = i, py = j\<rparr>)
       (if even j then [0..GRID_SIZE - 1] else rev [0..GRID_SIZE - 1])"

definition full_board_game :: game where
  "full_board_game =
     \<lparr>snake = map (\<lambda>i. \<lparr>px = i, py = 0\<rparr>) [1..GRID_SIZE - 1]
               @ concat (map serpentine_row [1..GRID_SIZE - 1]),
      direction = \<lparr>px = - 1, py = 0\<rparr>, food = \<lparr>px = 0, py = 0\<rparr>, running = True,
      speed = 8, score = 398, gameOver = False, highScore = 0, snake_high_score = None,
      random_calls = 0\<rparr>"

text \<open>
  Two games played one after the other on a fresh component with no stored high score.
  In the first the snake eats three times and then turns up and left within one tick
  window, which runs it into its own body; in the second it eats once and does the same.
\<close>

definition fresh_game :: game where
  "fresh_game =
     \<lparr>snake = [\<lparr>px = 10, py = 10\<rparr>], direction = \<lparr>px = 1, py = 0\<rparr>,
      food = \<lparr>px = 11, py = 10\<rparr>, running = False, speed = 8, score = 0,
      gameOver = False, highScore = 0, snake_high_score = None, random_calls = 2\<rparr>"

definition first_game :: "operation list" where
  "first_game = [Start, Tick, Tick, Tick, Key ''ArrowUp'', Key ''ArrowLeft'', Tick]"

definition second_game :: "operation list" where
  "second_game = [Start, Tick, Key ''w'', Key ''a'', Tick]"

definition after_first_game :: game where
  "after_first_game =
     \<lparr>snake = [\<lparr>px = 13, py = 10\<rparr>, \<lparr>px = 12, py = 10\<rparr>, \<lparr>px = 11, py = 10\<rparr>,
               \<lparr>px = 10, py = 10\<rparr>],
      direction = \<lparr>px = - 1, py = 0\<rparr>, food = \<lparr>px = 3, py = 3\<rparr>, running = False,
      speed = 8, score = 3, gameOver = True, highScore = 3, snake_high_score = Some 3,
      random_calls = 8\<rparr>"

definition after_second_game :: game where
  "after_second_game =
     \<lparr>snake = [\<lparr>px = 11, py = 10\<rparr>, \<lparr>px = 10, py = 10\<rparr>],
      direction = \<lparr>px = - 1, py = 0\<rparr>, food = \<lparr>px = 3, py = 3\<rparr>, running = False,
      speed = 8, score = 1, gameOver = True, highScore = 3, snake_high_score = Some 3,
      random_calls = 12\<rparr>"

section \<open>Properties\<close>

subsection \<open>Helpers\<close>

lemma positionsEqual_iff: "positionsEqual a b \<longleftrightarrow> a = (b::point)"
  by (auto simp: positionsEqual_def)

lemma some_equal: "list_ex (\<lambda>p. p = c) xs \<longleftrightarrow> c \<in> set xs"
  by (auto simp: list_ex_iff)

lemma some_coordinates:
  "list_ex (\<lambda>p. px p = a \<and> py p = b) xs \<longleftrightarrow> \<lparr>px = a, py = b\<rparr> \<in> set xs"
  by (induction xs) auto

text \<open>One turn of the sampling loop.\<close>

lemma randomFoodPosition_unfold:
  "randomFoodPosition rnd exclude n =
     (if candidate rnd n \<notin> set exclude then Some (candidate rnd n, n + 2)
      else randomFoodPosition rnd exclude (n + 2))"
  by (subst randomFoodPosition.simps) (simp add: some_coordinates candidate_def)

lemma randomFoodPosition_empty:
  "randomFoodPosition rnd [] n = Some (candidate rnd n, n + 2)"
  by (subst randomFoodPosition_unfold) simp

text \<open>The loop returns as soon as some later candidate is free.\<close>

lemma randomFoodPosition_returns:
  "candidate rnd (n + 2 * k) \<notin> set exclude \<Longrightarrow>
   \<exists>c m. randomFoodPosition rnd exclude n = Some (c, m) \<and> c \<notin> set exclude"
proof (induction k arbitrary: n)
  case 0
  then show ?case by (subst randomFoodPosition_unfold) simp
next
  case (Suc k)
  have "candidate rnd (n + 2 + 2 * k) \<notin> set exclude" using Suc.prems by simp
  from Suc.IH [OF this] show ?case
    by (subst randomFoodPosition_unfold) auto
qed

text \<open>Whatever the loop returns is a candidate it tried, and that candidate is free.\<close>

lemma randomFoodPosition_result:
  assumes "randomFoodPosition rnd exclude n = Some r"
  shows "\<exists>k. fst r = candidate rnd (n + 2 * k) \<and> snd r = n + 2 * k + 2 \<and> fst r \<notin> set exclude"
proof -
  define Q where
    "Q = (\<lambda>rnd exclude n (r :: point \<times> nat).
            \<exists>k. fst r = candidate rnd (n + 2 * k) \<and> snd r = n + 2 * k + 2 \<and> fst r \<notin> set exclude)"
  have "Q rnd exclude n r"
  proof (rule randomFoodPosition.raw_induct [where P = Q, OF _ assms])
    fix f rnd exclude n and r :: "point \<times> nat"
    assume IH: "\<And>rnd exclude n r. f rnd exclude n = Some r \<Longrightarrow> Q rnd exclude n r"
      and eq: "(if \<not> list_ex (\<lambda>p. px p = rnd n \<and> py p = rnd (Suc n)) exclude
                then Some (\<lparr>px = rnd n, py = rnd (Suc n)\<rparr>, n + 2)
                else f rnd exclude (n + 2)) = Some r"
    show "Q rnd exclude n r"
    proof (cases "candidate rnd n \<in> set exclude")
      case True
      with eq have "f rnd exclude (n + 2) = Some r"
        by (simp add: some_coordinates candidate_def)
      from IH [OF this] obtain k where
        "fst r = candidate rnd (n + 2 + 2 * k)" "snd r = n + 2 + 2 * k + 2" "fst r \<notin> set exclude"
        unfolding Q_def by blast
      then have "fst r = candidate rnd (n + 2 * Suc k) \<and> snd r = n + 2 * Suc k + 2
                 \<and> fst r \<notin> set exclude"
        by simp
      then show ?thesis unfolding Q_def by blast
    next
      case False
      with eq have "r = (candidate rnd n, n + 2)"
        by (simp add: some_coordinates candidate_def)
      then have "fst r = candidate rnd (n + 2 * 0) \<and> snd r = n + 2 * 0 + 2 \<and> fst r \<notin> set exclude"
        using False by simp
      then show ?thesis unfolding Q_def by blast
    qed
  qed
  then show ?thesis unfolding Q_def .
qed

text \<open>When no candidate is ever free, the loop does not return.\<close>

lemma randomFoodPosition_diverges:
  assumes "\<And>k. candidate rnd (n + 2 * k) \<in> set exclude"
  shows "randomFoodPosition rnd exclude n = None"
proof (cases "randomFoodPosition rnd exclude n")
  case None
  then show ?thesis .
next
  case (Some r)
  from randomFoodPosition_result [OF this] assms show ?thesis by auto
qed

lemma js_rem_nonneg: "0 \<le> a \<Longrightarrow> js_rem a GRID_SIZE = a mod GRID_SIZE"
  by (cases "a = 0") (simp_all add: js_rem_def GRID_SIZE_def)

lemma new_head_mod:
  assumes "in_grid h" "is_direction d"
  shows "new_head h d = \<lparr>px = (px h + px d) mod GRID_SIZE, py = (py h + py d) mod GRID_SIZE\<rparr>"
proof -
  have "0 \<le> px h + px d + GRID_SIZE" "0 \<le> py h + py d + GRID_SIZE"
    using assms by (auto simp: in_grid_def is_direction_def GRID_SIZE_def)
  then show ?thesis
    by (simp add: new_head_def js_rem_nonneg)
qed

lemma new_head_simps:
  "new_head \<lparr>px = a, py = b\<rparr> \<lparr>px = c, py = d\<rparr> =
     \<lparr>px = js_rem (a + c + 20) 20, py = js_rem (b + d + 20) 20\<rparr>"
  by (simp add: new_head_def GRID_SIZE_def)

text \<open>The three branches of the interval callback, for a snake with a first cell.\<close>

lemma tick_unfold:
  assumes "snake s = h # t"
  shows "tick rnd s =
           (if new_head h (direction s) \<in> set (snake s) then
              Some (Inr (s\<lparr>running := False, gameOver := True,
                           highScore := max (highScore s) (score s),
                           snake_high_score := Some (max (highScore s) (score s))\<rparr>))
            else if new_head h (direction s) \<noteq> food s then
              Some (Inr (s\<lparr>snake := butlast (new_head h (direction s) # snake s)\<rparr>))
            else
              (case randomFoodPosition rnd (new_head h (direction s) # snake s)
                      (random_calls s) of
                 None \<Rightarrow> None
               | Some (f, n) \<Rightarrow>
                   Some (Inr (s\<lparr>snake := new_head h (direction s) # snake s,
                                score := score s + 1, food := f, random_calls := n\<rparr>))))"
  unfolding tick_def Let_def positionsEqual_iff some_equal
  by (simp add: assms)

lemma tick_cases:
  "tick rnd s =
     (case snake s of
        [] \<Rightarrow> Some (Inl TypeError)
      | h # t \<Rightarrow>
          (if new_head h (direction s) \<in> set (snake s) then
              Some (Inr (s\<lparr>running := False, gameOver := True,
                           highScore := max (highScore s) (score s),
                           snake_high_score := Some (max (highScore s) (score s))\<rparr>))
            else if new_head h (direction s) \<noteq> food s then
              Some (Inr (s\<lparr>snake := butlast (new_head h (direction s) # snake s)\<rparr>))
            else
              (case randomFoodPosition rnd (new_head h (direction s) # snake s)
                      (random_calls s) of
                 None \<Rightarrow> None
               | Some (f, n) \<Rightarrow>
                   Some (Inr (s\<lparr>snake := new_head h (direction s) # snake s,
                                score := score s + 1, food := f, random_calls := n\<rparr>)))))"
proof (cases "snake s")
  case Nil
  then show ?thesis by (simp add: tick_def)
next
  case (Cons h t)
  show ?thesis unfolding tick_unfold [OF Cons] by (simp add: Cons)
qed

lemma tick_collision:
  assumes "snake s = h # t" and "new_head h (direction s) \<in> set (snake s)"
  shows "tick rnd s =
           Some (Inr (s\<lparr>running := False, gameOver := True,
                        highScore := max (highScore s) (score s),
                        snake_high_score := Some (max (highScore s) (score s))\<rparr>))"
  using assms(2) by (simp add: tick_unfold [OF assms(1)])

lemma tick_move:
  assumes "snake s = h # t" and "new_head h (direction s) \<notin> set (snake s)"
    and "new_head h (direction s) \<noteq> food s"
  shows "tick rnd s = Some (Inr (s\<lparr>snake := new_head h (direction s) # butlast (snake s)\<rparr>))"
  using assms by (simp add: tick_unfold [OF assms(1)])

lemma tick_eat:
  assumes "snake s = h # t" and "new_head h (direction s) \<notin> set (snake s)"
    and "new_head h (direction s) = food s"
  shows "tick rnd s =
           (case randomFoodPosition rnd (new_head h (direction s) # snake s) (random_calls s) of
              None \<Rightarrow> None
            | Some (f, n) \<Rightarrow>
                Some (Inr (s\<lparr>snake := new_head h (direction s) # snake s, score := score s + 1,
                             food := f, random_calls := n\<rparr>)))"
  using assms(2,3) by (simp add: tick_unfold [OF assms(1)])

text \<open>A tick that eats returns as soon as the random source draws a free cell.\<close>

lemma tick_eat_returns:
  assumes "snake s = h # t"
    and "new_head h (direction s) \<notin> set (snake s)"
    and "new_head h (direction s) = food s"
    and "candidate rnd (random_calls s + 2 * k) \<notin> set (new_head h (direction s) # snake s)"
  shows "\<exists>f n. tick rnd s =
                 Some (Inr (s\<lparr>snake := new_head h (direction s) # snake s,
                              score := score s + 1, food := f, random_calls := n\<rparr>))
               \<and> f \<notin> set (new_head h (direction s) # snake s)"
proof -
  from randomFoodPosition_returns [OF assms(4)] obtain c m where
    "randomFoodPosition rnd (new_head h (direction s) # snake s) (random_calls s) = Some (c, m)"
    and "c \<notin> set (new_head h (direction s) # snake s)"
    by blast
  then show ?thesis
    unfolding tick_eat [OF assms(1-3)] by (intro exI [of _ c] exI [of _ m]) simp
qed

text \<open>The list \<open>all_cells\<close> holds exactly the cells of the grid.\<close>

lemma set_all_cells:
  "set all_cells = (\<Union>i\<in>{0..GRID_SIZE - 1}. (\<lambda>j. \<lparr>px = i, py = j\<rparr>) ` {0..GRID_SIZE - 1})"
  unfolding all_cells_def by (simp only: set_concat set_map set_upto image_image)

lemma all_cells_iff: "c \<in> set all_cells \<longleftrightarrow> in_grid c"
proof
  assume "c \<in> set all_cells"
  then obtain i j where "i \<in> {0..GRID_SIZE - 1}" "j \<in> {0..GRID_SIZE - 1}"
    "c = \<lparr>px = i, py = j\<rparr>"
    unfolding set_all_cells by blast
  then show "in_grid c"
    by (simp add: in_grid_def)
next
  assume "in_grid c"
  then have "px c \<in> {0..GRID_SIZE - 1}" "py c \<in> {0..GRID_SIZE - 1}"
    by (simp_all add: in_grid_def)
  moreover have "c = \<lparr>px = px c, py = py c\<rparr>" by simp
  ultimately show "c \<in> set all_cells"
    unfolding set_all_cells by blast
qed

lemma draws_in_grid: "in_grid (candidate draws n)"
  by (simp add: in_grid_def candidate_def draws_def GRID_SIZE_def)

text \<open>A tick that eats the food in the last free cell of the grid never returns.\<close>

lemma tick_eat_full_board:
  assumes "snake s = h # t"
    and "new_head h (direction s) \<notin> set (snake s)"
    and "new_head h (direction s) = food s"
    and "\<And>c. in_grid c \<Longrightarrow> c \<in> set (new_head h (direction s) # snake s)"
    and "\<And>n. in_grid (candidate rnd n)"
  shows "tick rnd s = None"
proof -
  have "randomFoodPosition rnd (new_head h (direction s) # snake s) (random_calls s) = None"
    by (rule randomFoodPosition_diverges) (rule assms(4), rule assms(5))
  then show ?thesis
    by (simp add: tick_eat [OF assms(1-3)])
qed

subsection \<open>A tick that hits the body\<close>

text \<open>
  Claim C1. When the new head of a tick equals some cell of the current snake, the tick
  leaves the snake, the food and the score as they are; the only state cells it changes
  are \<open>running\<close> (set to false), \<open>gameOver\<close> (set to true) and the high score, which
  becomes the larger of the old high score and the score, in the state cell and in the
  stored entry.
\<close>

theorem collision_tick_frame:
  assumes "snake s = h # t" and "new_head h (direction s) \<in> set (snake s)"
  shows "tick rnd s =
           Some (Inr (s\<lparr>running := False, gameOver := True,
                        highScore := max (highScore s) (score s),
                        snake_high_score := Some (max (highScore s) (score s))\<rparr>))
         \<and> (\<forall>s'. tick rnd s = Some (Inr s') \<longrightarrow>
                snake s' = snake s \<and> food s' = food s \<and> score s' = score s
                \<and> \<not> running s' \<and> gameOver s' \<and> highScore s' = max (highScore s) (score s))"
  using tick_collision [OF assms, of rnd] by simp

text \<open>The snake of five cells runs into its fourth cell with score 4 and high score 2.\<close>

theorem collision_tick_frame_witness:
  "snake body_hit_game = \<lparr>px = 5, py = 5\<rparr> # tl (snake body_hit_game)
   \<and> new_head \<lparr>px = 5, py = 5\<rparr> (direction body_hit_game) \<in> set (snake body_hit_game)
   \<and> tick draws body_hit_game =
       Some (Inr (body_hit_game\<lparr>running := False, gameOver := True, highScore := 4,
                                snake_high_score := Some 4\<rparr>))"
proof -
  have a: "snake body_hit_game = \<lparr>px = 5, py = 5\<rparr> # tl (snake body_hit_game)"
    by (simp add: body_hit_game_def)
  have b: "new_head \<lparr>px = 5, py = 5\<rparr> (direction body_hit_game) \<in> set (snake body_hit_game)"
    by (simp add: body_hit_game_def new_head_simps js_rem_def)
  from collision_tick_frame [OF a b, of draws] a b show ?thesis
    by (simp add: body_hit_game_def)
qed

subsection \<open>A tick that eats\<close>

lemma set_serpentine_row:
  "set (serpentine_row j) = (\<lambda>i. \<lparr>px = i, py = j\<rparr>) ` {0..GRID_SIZE - 1}"
  by (simp add: serpentine_row_def)

lemma length_serpentine_row: "length (serpentine_row j) = 20"
  by (simp add: serpentine_row_def GRID_SIZE_def)

lemma set_full_board_snake:
  "set (snake full_board_game) =
     (\<lambda>i. \<lparr>px = i, py = 0\<rparr>) ` {1..GRID_SIZE - 1}
     \<union> (\<Union>j\<in>{1..GRID_SIZE - 1}. (\<lambda>i. \<lparr>px = i, py = j\<rparr>) ` {0..GRID_SIZE - 1})"
  by (simp add: full_board_game_def set_serpentine_row)

lemma full_board_head:
  "snake full_board_game = \<lparr>px = 1, py = 0\<rparr> # tl (snake full_board_game)"
  by (simp add: full_board_game_def GRID_SIZE_def upto_rec1 [of 1 19])

lemma full_board_new_head:
  "new_head \<lparr>px = 1, py = 0\<rparr> (direction full_board_game) = \<lparr>px = 0, py = 0\<rparr>"
  by (simp add: full_board_game_def new_head_simps js_rem_def)

lemma full_board_free: "\<lparr>px = 0, py = 0\<rparr> \<notin> set (snake full_board_game)"
  unfolding set_full_board_snake by auto

lemma full_board_covers:
  assumes "in_grid c"
  shows "c \<in> set (\<lparr>px = 0, py = 0\<rparr> # snake full_board_game)"
proof -
  have c: "c = \<lparr>px = px c, py = py c\<rparr>" by simp
  from assms have r: "0 \<le> px c" "px c \<le> GRID_SIZE - 1" "0 \<le> py c" "py c \<le> GRID_SIZE - 1"
    by (simp_all add: in_grid_def)
  show ?thesis
  proof (cases "py c = 0")
    case True
    show ?thesis
    proof (cases "px c = 0")
      case True
      with \<open>py c = 0\<close> c have "c = \<lparr>px = 0, py = 0\<rparr>" by simp
      then show ?thesis by simp
    next
      case False
      with r have "px c \<in> {1..GRID_SIZE - 1}" by simp
      with \<open>py c = 0\<close> c have "c \<in> (\<lambda>i. \<lparr>px = i, py = 0\<rparr>) ` {1..GRID_SIZE - 1}"
        by (metis (mono_tags, lifting) image_eqI)
      then show ?thesis unfolding set_full_board_snake list.set by blast
    qed
  next
    case False
    with r have "py c \<in> {1..GRID_SIZE - 1}" "px c \<in> {0..GRID_SIZE - 1}" by simp_all
    with c have "c \<in> (\<Union>j\<in>{1..GRID_SIZE - 1}. (\<lambda>i. \<lparr>px = i, py = j\<rparr>) ` {0..GRID_SIZE - 1})"
      by blast
    then show ?thesis unfolding set_full_board_snake list.set by blast
  qed
qed

lemma length_full_board: "length (snake full_board_game) = 399"
  by (simp add: full_board_game_def length_concat comp_def length_serpentine_row
      sum_list_triv GRID_SIZE_def)

lemma full_board_well_formed: "well_formed full_board_game"
proof -
  have "\<forall>c\<in>set (snake full_board_game). in_grid c"
    unfolding set_full_board_snake by (auto simp: in_grid_def)
  moreover have "snake full_board_game \<noteq> []"
    using full_board_head by (metis list.distinct(1))
  moreover have "is_direction (direction full_board_game)"
    by (simp add: full_board_game_def is_direction_def)
  ultimately show ?thesis by (simp add: well_formed_def list_all_iff)
qed

text \<open>
  Claim C2 says that in every game in which the new head is the food cell and not a cell
  of the snake, the tick grows the snake and places new food off it. When the snake of
  399 cells eats the food in the last free cell, the grown snake fills the grid, the
  sampling loop finds no free cell and the tick never returns.
\<close>

theorem eating_fills_board:
  "snake full_board_game = \<lparr>px = 1, py = 0\<rparr> # tl (snake full_board_game)
   \<and> length (snake full_board_game) = 399
   \<and> well_formed full_board_game
   \<and> new_head \<lparr>px = 1, py = 0\<rparr> (direction full_board_game) \<notin> set (snake full_board_game)
   \<and> new_head \<lparr>px = 1, py = 0\<rparr> (direction full_board_game) = food full_board_game
   \<and> tick draws full_board_game = None"
proof -
  have f: "new_head \<lparr>px = 1, py = 0\<rparr> (direction full_board_game) = food full_board_game"
    unfolding full_board_new_head by (simp add: full_board_game_def)
  have n: "new_head \<lparr>px = 1, py = 0\<rparr> (direction full_board_game) \<notin> set (snake full_board_game)"
    unfolding full_board_new_head by (rule full_board_free)
  have "tick draws full_board_game = None"
  proof (rule tick_eat_full_board [OF full_board_head n f])
    fix c assume "in_grid c"
    then show "c \<in> set (new_head \<lparr>px = 1, py = 0\<rparr> (direction full_board_game) # snake full_board_game)"
      unfolding full_board_new_head by (rule full_board_covers)
  next
    fix n show "in_grid (candidate draws n)" by (rule draws_in_grid)
  qed
  with full_board_head length_full_board full_board_well_formed n f show ?thesis by blast
qed

text \<open>
  Claim C2, as amended. When the new head of a tick is the food cell and is not a cell of
  the snake, and the random source goes on to draw a cell that the grown snake leaves
  free, the tick returns a game whose score is one higher, whose snake is the new head
  put in front of the whole old snake (one cell longer, the tail kept), and whose new
  food is not a cell of that longer snake.
\<close>

theorem food_tick_grows:
  assumes "snake s = h # t"
    and "new_head h (direction s) \<notin> set (snake s)"
    and "new_head h (direction s) = food s"
    and "candidate rnd (random_calls s + 2 * k) \<notin> set (new_head h (direction s) # snake s)"
  shows "\<exists>s'. tick rnd s = Some (Inr s')
           \<and> score s' = score s + 1
           \<and> snake s' = new_head h (direction s) # snake s
           \<and> length (snake s') = length (snake s) + 1
           \<and> food s' \<notin> set (snake s')"
  using tick_eat_returns [OF assms] by auto

text \<open>
  The snake of two cells eats the food at \<open>(6,5)\<close>. The first cell drawn is \<open>(6,5)\<close> itself,
  now the head, so the loop draws again and places the food at \<open>(3,7)\<close>.
\<close>

theorem food_tick_grows_witness:
  "snake eating_game = \<lparr>px = 5, py = 5\<rparr> # tl (snake eating_game)
   \<and> new_head \<lparr>px = 5, py = 5\<rparr> (direction eating_game) \<notin> set (snake eating_game)
   \<and> new_head \<lparr>px = 5, py = 5\<rparr> (direction eating_game) = food eating_game
   \<and> candidate draws (random_calls eating_game + 2 * 1)
        \<notin> set (new_head \<lparr>px = 5, py = 5\<rparr> (direction eating_game) # snake eating_game)
   \<and> tick draws eating_game =
       Some (Inr (eating_game\<lparr>snake := [\<lparr>px = 6, py = 5\<rparr>, \<lparr>px = 5, py = 5\<rparr>, \<lparr>px = 4, py = 5\<rparr>],
                              score := 2, food := \<lparr>px = 3, py = 7\<rparr>, random_calls := 4\<rparr>))"
proof -
  have a: "snake eating_game = \<lparr>px = 5, py = 5\<rparr> # tl (snake eating_game)"
    by (simp add: eating_game_def)
  have b: "new_head \<lparr>px = 5, py = 5\<rparr> (direction eating_game) \<notin> set (snake eating_game)"
    by (simp add: eating_game_def new_head_simps js_rem_def)
  have c: "new_head \<lparr>px = 5, py = 5\<rparr> (direction eating_game) = food eating_game"
    by (simp add: eating_game_def new_head_simps js_rem_def)
  have d: "candidate draws (random_calls eating_game + 2 * 1)
             \<notin> set (new_head \<lparr>px = 5, py = 5\<rparr> (direction eating_game) # snake eating_game)"
    by (simp add: eating_game_def new_head_simps js_rem_def candidate_def draws_def)
  have e: "randomFoodPosition draws [\<lparr>px = 6, py = 5\<rparr>, \<lparr>px = 5, py = 5\<rparr>, \<lparr>px = 4, py = 5\<rparr>] 0
             = Some (\<lparr>px = 3, py = 7\<rparr>, 4)"
    apply (subst randomFoodPosition_unfold)
    apply (subst randomFoodPosition_unfold)
    apply (simp add: candidate_def draws_def)
    done
  from food_tick_grows [OF a b c d] obtain s' where
    "tick draws eating_game = Some (Inr s')" by blast
  moreover have "tick draws eating_game =
       Some (Inr (eating_game\<lparr>snake := [\<lparr>px = 6, py = 5\<rparr>, \<lparr>px = 5, py = 5\<rparr>, \<lparr>px = 4, py = 5\<rparr>],
                              score := 2, food := \<lparr>px = 3, py = 7\<rparr>, random_calls := 4\<rparr>))"
    using b c by (simp add: tick_unfold [OF a]) (simp add: eating_game_def new_head_simps js_rem_def e)
  ultimately show ?thesis using a b c d by simp
qed

subsection \<open>A tick that only moves\<close>

text \<open>
  Claim C5. When the new head of a tick is neither a cell of the snake nor the food, the
  snake after the tick is the new head followed by the old snake without its last cell,
  so its length is unchanged. The witness is the scenario of the specification: the snake
  \<open>[(5,5),(4,5),(3,5)]\<close> with direction \<open>(1,0)\<close> becomes \<open>[(6,5),(5,5),(4,5)]\<close>.
\<close>

theorem move_tick_shifts:
  assumes "snake s = h # t"
    and "new_head h (direction s) \<notin> set (snake s)"
    and "new_head h (direction s) \<noteq> food s"
  shows "tick rnd s = Some (Inr (s\<lparr>snake := new_head h (direction s) # butlast (snake s)\<rparr>))
         \<and> length (new_head h (direction s) # butlast (snake s)) = length (snake s)"
  using tick_move [OF assms, of rnd] assms(1) by simp

theorem move_tick_shifts_witness:
  "snake moving_game = \<lparr>px = 5, py = 5\<rparr> # tl (snake moving_game)
   \<and> new_head \<lparr>px = 5, py = 5\<rparr> (direction moving_game) \<notin> set (snake moving_game)
   \<and> new_head \<lparr>px = 5, py = 5\<rparr> (direction moving_game) \<noteq> food moving_game
   \<and> tick draws moving_game =
       Some (Inr (moving_game\<lparr>snake := [\<lparr>px = 6, py = 5\<rparr>, \<lparr>px = 5, py = 5\<rparr>, \<lparr>px = 4, py = 5\<rparr>]\<rparr>))"
proof -
  have a: "snake moving_game = \<lparr>px = 5, py = 5\<rparr> # tl (snake moving_game)"
    by (simp add: moving_game_def)
  have b: "new_head \<lparr>px = 5, py = 5\<rparr> (direction moving_game) \<notin> set (snake moving_game)"
    by (simp add: moving_game_def new_head_simps js_rem_def)
  have c: "new_head \<lparr>px = 5, py = 5\<rparr> (direction moving_game) \<noteq> food moving_game"
    by (simp add: moving_game_def new_head_simps js_rem_def)
  have d: "new_head \<lparr>px = 5, py = 5\<rparr> (direction moving_game) # butlast (snake moving_game)
             = [\<lparr>px = 6, py = 5\<rparr>, \<lparr>px = 5, py = 5\<rparr>, \<lparr>px = 4, py = 5\<rparr>]"
    by (simp add: moving_game_def new_head_simps js_rem_def)
  from move_tick_shifts [OF a b c, of draws] a b c show ?thesis
    by (simp only: d) simp
qed

subsection \<open>The tail cell counts as body\<close>

text \<open>
  Claim C10. The collision test looks at every cell of the snake before the move, the
  last one included: for a snake of two or more cells, a tick whose new head is the
  current tail cell ends the game, although popping the tail first would have freed it.
\<close>

theorem tail_cell_collides:
  assumes "snake s = h # t" and "t \<noteq> []"
    and "new_head h (direction s) = last (snake s)"
  shows "tick rnd s =
           Some (Inr (s\<lparr>running := False, gameOver := True,
                        highScore := max (highScore s) (score s),
                        snake_high_score := Some (max (highScore s) (score s))\<rparr>))"
proof -
  have "last (snake s) \<in> set (snake s)"
    using assms(1) by (intro last_in_set) simp
  with assms(3) have "new_head h (direction s) \<in> set (snake s)" by simp
  from tick_collision [OF assms(1) this] show ?thesis .
qed

text \<open>
  The square snake turns into its own tail cell \<open>(4,5)\<close>, which no other cell of the
  snake occupies.
\<close>

theorem tail_cell_collides_witness:
  "snake tail_hit_game = \<lparr>px = 5, py = 5\<rparr> # tl (snake tail_hit_game)
   \<and> tl (snake tail_hit_game) \<noteq> []
   \<and> new_head \<lparr>px = 5, py = 5\<rparr> (direction tail_hit_game) = last (snake tail_hit_game)
   \<and> new_head \<lparr>px = 5, py = 5\<rparr> (direction tail_hit_game) \<notin> set (butlast (snake tail_hit_game))
   \<and> tick draws tail_hit_game =
       Some (Inr (tail_hit_game\<lparr>running := False, gameOver := True, highScore := 3,
                                snake_high_score := Some 3\<rparr>))"
proof -
  have a: "snake tail_hit_game = \<lparr>px = 5, py = 5\<rparr> # tl (snake tail_hit_game)"
    by (simp add: tail_hit_game_def)
  have b: "tl (snake tail_hit_game) \<noteq> []"
    by (simp add: tail_hit_game_def)
  have c: "new_head \<lparr>px = 5, py = 5\<rparr> (direction tail_hit_game) = last (snake tail_hit_game)"
    by (simp add: tail_hit_game_def new_head_simps js_rem_def)
  have d: "new_head \<lparr>px = 5, py = 5\<rparr> (direction tail_hit_game)
             \<notin> set (butlast (snake tail_hit_game))"
    by (simp add: tail_hit_game_def new_head_simps js_rem_def)
  from tail_cell_collides [OF a b c, of draws] a b c d show ?thesis
    by (simp add: tail_hit_game_def)
qed

subsection \<open>Games reached from a fresh component\<close>

text \<open>
  A fresh component is well formed, and every operation keeps a well-formed game well
  formed: the snake has a first cell, its cells are on the grid and the direction is one
  of the four unit vectors. In particular the interval callback never throws.
\<close>

lemma new_head_in_grid:
  assumes "in_grid h" and "is_direction d"
  shows "in_grid (new_head h d)"
  unfolding new_head_mod [OF assms] by (simp add: in_grid_def GRID_SIZE_def)

lemma setDirection_well_formed:
  assumes "well_formed s" and "is_direction d"
  shows "well_formed (setDirection d s)"
  using assms by (simp add: well_formed_def setDirection_def)

lemma onKey_well_formed:
  assumes "well_formed s"
  shows "well_formed (onKey key s)"
proof -
  have "is_direction \<lparr>px = 0, py = - 1\<rparr>" "is_direction \<lparr>px = 0, py = 1\<rparr>"
    "is_direction \<lparr>px = - 1, py = 0\<rparr>" "is_direction \<lparr>px = 1, py = 0\<rparr>"
    by (simp_all add: is_direction_def)
  moreover have "well_formed (s\<lparr>running := b\<rparr>)" for b
    using assms by (simp add: well_formed_def)
  ultimately show ?thesis
    using assms by (simp add: onKey_def setDirection_well_formed)
qed

lemma tick_well_formed:
  assumes "well_formed s" and "tick rnd s = Some r"
  shows "\<exists>s'. r = Inr s' \<and> well_formed s'"
proof -
  from assms(1) obtain h t where sn: "snake s = h # t"
    by (cases "snake s") (auto simp: well_formed_def)
  from assms(1) sn have cells: "\<forall>c\<in>set (snake s). in_grid c" and h: "in_grid h"
    and d: "is_direction (direction s)"
    by (auto simp: well_formed_def list_all_iff)
  note nh = new_head_in_grid [OF h d]
  have "\<forall>c\<in>set (butlast (snake s)). in_grid c"
    using cells by (auto dest: in_set_butlastD)
  with nh cells d sn assms(2) show ?thesis
    unfolding tick_unfold [OF sn]
    by (auto simp: well_formed_def list_all_iff split: if_splits option.splits)
qed

lemma resetGame_well_formed:
  assumes "resetGame rnd s = Some s'"
  shows "well_formed s'"
  using assms
  by (auto simp: resetGame_def well_formed_def in_grid_def is_direction_def GRID_SIZE_def
      split: option.splits)

lemma initial_well_formed:
  assumes "initial rnd v n = Some s"
  shows "well_formed s"
  using assms
  by (auto simp: initial_def well_formed_def in_grid_def is_direction_def GRID_SIZE_def
      split: option.splits)

lemma handleStart_well_formed:
  assumes "well_formed s" and "handleStart rnd s = Some s'"
  shows "well_formed s'"
proof (cases "gameOver s")
  case True
  with assms(2) obtain s1 where r: "resetGame rnd s = Some s1"
    and e: "s' = s1\<lparr>running := True, gameOver := False\<rparr>"
    by (auto simp: handleStart_def split: option.splits)
  from resetGame_well_formed [OF r] e show ?thesis by (simp add: well_formed_def)
next
  case False
  with assms show ?thesis by (auto simp: handleStart_def well_formed_def)
qed

lemma perform_well_formed:
  assumes "well_formed s" and "\<And>d. a = SetDirection d \<Longrightarrow> is_direction d"
    and "perform rnd a s = Some r"
  shows "\<exists>s'. r = Inr s' \<and> well_formed s'"
proof (cases a)
  case Tick
  with assms(1,3) tick_well_formed [of s rnd r] show ?thesis
    by (auto simp: game_loop_def split: if_splits)
next
  case (Key key)
  with assms(1,3) onKey_well_formed [of s key] show ?thesis by auto
next
  case (SetDirection d)
  with assms setDirection_well_formed [of s d] show ?thesis by auto
next
  case Toggle
  with assms(1,3) show ?thesis by (auto simp: toggle_def well_formed_def)
next
  case Restart
  with assms(1,3) show ?thesis by (auto simp: restart_def well_formed_def)
next
  case Start
  with assms(1,3) handleStart_well_formed [of s rnd] show ?thesis by auto
next
  case Pause
  with assms(1,3) show ?thesis by (auto simp: handlePause_def well_formed_def)
next
  case Reset
  with assms(3) resetGame_well_formed [of rnd s] show ?thesis by auto
next
  case (SetSpeed v)
  with assms(1,3) show ?thesis
    by (auto simp: onChange_speed_def setSpeed_def well_formed_def)
qed

lemma run_well_formed:
  assumes "well_formed s" and "\<And>d. SetDirection d \<in> set as \<Longrightarrow> is_direction d"
    and "run rnd as s = Some r"
  shows "\<exists>s'. r = Inr s' \<and> well_formed s'"
  using assms
proof (induction as arbitrary: s)
  case Nil
  then show ?case by auto
next
  case (Cons a as)
  from Cons.prems(3) obtain r1 where p: "perform rnd a s = Some r1"
    by (auto split: option.splits)
  have "\<And>d. a = SetDirection d \<Longrightarrow> is_direction d"
    using Cons.prems(2) by simp
  from perform_well_formed [OF Cons.prems(1) this p] obtain s1 where
    r1: "r1 = Inr s1" and w: "well_formed s1" by blast
  from Cons.prems(3) p r1 have "run rnd as s1 = Some r" by simp
  moreover have "\<And>d. SetDirection d \<in> set as \<Longrightarrow> is_direction d"
    using Cons.prems(2) by simp
  ultimately show ?case using Cons.IH [OF w] by blast
qed

subsection \<open>Wrap-around\<close>

text \<open>
  Claim C6. For a head on the grid and one of the four directions, the new head is the
  head plus the direction with each coordinate reduced modulo \<open>GRID_SIZE\<close>, and it lies
  on the grid again. At the right edge a step to the right lands in column 0 of the same
  row, and likewise at the other three edges. A tick that moves returns the snake with
  exactly this cell at its front, and so does a tick that eats once the random source
  draws a free cell.
\<close>

theorem new_head_wraps:
  assumes "in_grid h" and "is_direction d"
  shows "new_head h d = \<lparr>px = (px h + px d) mod GRID_SIZE, py = (py h + py d) mod GRID_SIZE\<rparr>
         \<and> in_grid (new_head h d)
         \<and> (px h = GRID_SIZE - 1 \<and> d = \<lparr>px = 1, py = 0\<rparr> \<longrightarrow>
              new_head h d = \<lparr>px = 0, py = py h\<rparr>)
         \<and> (px h = 0 \<and> d = \<lparr>px = - 1, py = 0\<rparr> \<longrightarrow>
              new_head h d = \<lparr>px = GRID_SIZE - 1, py = py h\<rparr>)
         \<and> (py h = GRID_SIZE - 1 \<and> d = \<lparr>px = 0, py = 1\<rparr> \<longrightarrow>
              new_head h d = \<lparr>px = px h, py = 0\<rparr>)
         \<and> (py h = 0 \<and> d = \<lparr>px = 0, py = - 1\<rparr> \<longrightarrow>
              new_head h d = \<lparr>px = px h, py = GRID_SIZE - 1\<rparr>)
         \<and> (\<forall>rnd s t. snake s = h # t \<and> direction s = d
                \<and> new_head h d \<notin> set (snake s) \<and> new_head h d \<noteq> food s \<longrightarrow>
                tick rnd s =
                  Some (Inr (s\<lparr>snake :=
                    \<lparr>px = (px h + px d) mod GRID_SIZE, py = (py h + py d) mod GRID_SIZE\<rparr>
                      # butlast (snake s)\<rparr>)))
         \<and> (\<forall>rnd s t k. snake s = h # t \<and> direction s = d
                \<and> new_head h d \<notin> set (snake s) \<and> new_head h d = food s
                \<and> candidate rnd (random_calls s + 2 * k) \<notin> set (new_head h d # snake s) \<longrightarrow>
                (\<exists>s'. tick rnd s = Some (Inr s')
                   \<and> snake s' =
                       \<lparr>px = (px h + px d) mod GRID_SIZE, py = (py h + py d) mod GRID_SIZE\<rparr>
                         # snake s))"
proof -
  note eq = new_head_mod [OF assms]
  have g: "in_grid (new_head h d)"
    unfolding eq by (simp add: in_grid_def GRID_SIZE_def)
  have e1: "px h = GRID_SIZE - 1 \<and> d = \<lparr>px = 1, py = 0\<rparr> \<longrightarrow>
              new_head h d = \<lparr>px = 0, py = py h\<rparr>"
    unfolding eq using assms(1) by (auto simp: in_grid_def GRID_SIZE_def)
  have e2: "px h = 0 \<and> d = \<lparr>px = - 1, py = 0\<rparr> \<longrightarrow>
              new_head h d = \<lparr>px = GRID_SIZE - 1, py = py h\<rparr>"
    unfolding eq using assms(1) by (auto simp: in_grid_def GRID_SIZE_def)
  have e3: "py h = GRID_SIZE - 1 \<and> d = \<lparr>px = 0, py = 1\<rparr> \<longrightarrow>
              new_head h d = \<lparr>px = px h, py = 0\<rparr>"
    unfolding eq using assms(1) by (auto simp: in_grid_def GRID_SIZE_def)
  have e4: "py h = 0 \<and> d = \<lparr>px = 0, py = - 1\<rparr> \<longrightarrow>
              new_head h d = \<lparr>px = px h, py = GRID_SIZE - 1\<rparr>"
    unfolding eq using assms(1) by (auto simp: in_grid_def GRID_SIZE_def)
  have m: "\<forall>rnd s t. snake s = h # t \<and> direction s = d
                \<and> new_head h d \<notin> set (snake s) \<and> new_head h d \<noteq> food s \<longrightarrow>
                tick rnd s = Some (Inr (s\<lparr>snake := new_head h d # butlast (snake s)\<rparr>))"
  proof (intro allI impI)
    fix rnd :: random_source and s :: game and t
    assume "snake s = h # t \<and> direction s = d
              \<and> new_head h d \<notin> set (snake s) \<and> new_head h d \<noteq> food s"
    then have sn: "snake s = h # t" and dr: "direction s = d"
      and a: "new_head h (direction s) \<notin> set (snake s)"
      and b: "new_head h (direction s) \<noteq> food s" by auto
    from tick_move [OF sn a b, of rnd]
    show "tick rnd s = Some (Inr (s\<lparr>snake := new_head h d # butlast (snake s)\<rparr>))"
      unfolding dr .
  qed
  have e: "\<forall>rnd s t k. snake s = h # t \<and> direction s = d
                \<and> new_head h d \<notin> set (snake s) \<and> new_head h d = food s
                \<and> candidate rnd (random_calls s + 2 * k) \<notin> set (new_head h d # snake s) \<longrightarrow>
                (\<exists>s'. tick rnd s = Some (Inr s') \<and> snake s' = new_head h d # snake s)"
  proof (intro allI impI)
    fix rnd :: random_source and s :: game and t k
    assume "snake s = h # t \<and> direction s = d
              \<and> new_head h d \<notin> set (snake s) \<and> new_head h d = food s
              \<and> candidate rnd (random_calls s + 2 * k) \<notin> set (new_head h d # snake s)"
    then have sn: "snake s = h # t" and dr: "direction s = d"
      and a: "new_head h (direction s) \<notin> set (snake s)"
      and b: "new_head h (direction s) = food s"
      and c: "candidate rnd (random_calls s + 2 * k)
                \<notin> set (new_head h (direction s) # snake s)" by auto
    from tick_eat_returns [OF sn a b c]
    show "\<exists>s'. tick rnd s = Some (Inr s') \<and> snake s' = new_head h d # snake s"
      unfolding dr by auto
  qed
  from g e1 e2 e3 e4 m e show ?thesis
    unfolding eq by blast
qed

text \<open>
  A head at \<open>(19,7)\<close> moving right lands at \<open>(0,7)\<close>, and the tick returns the snake
  \<open>[(0,7),(19,7),(18,7)]\<close>. A head at \<open>(0,4)\<close> moving left eats the food at \<open>(19,4)\<close>, and
  the tick returns the snake \<open>[(19,4),(0,4),(1,4)]\<close>.
\<close>

theorem new_head_wraps_witness:
  "in_grid \<lparr>px = 19, py = 7\<rparr> \<and> is_direction \<lparr>px = 1, py = 0\<rparr>
   \<and> new_head \<lparr>px = 19, py = 7\<rparr> \<lparr>px = 1, py = 0\<rparr> = \<lparr>px = 0, py = 7\<rparr>
   \<and> in_grid (new_head \<lparr>px = 19, py = 7\<rparr> \<lparr>px = 1, py = 0\<rparr>)
   \<and> snake right_edge_game = \<lparr>px = 19, py = 7\<rparr> # tl (snake right_edge_game)
   \<and> direction right_edge_game = \<lparr>px = 1, py = 0\<rparr>
   \<and> new_head \<lparr>px = 19, py = 7\<rparr> \<lparr>px = 1, py = 0\<rparr> \<notin> set (snake right_edge_game)
   \<and> new_head \<lparr>px = 19, py = 7\<rparr> \<lparr>px = 1, py = 0\<rparr> \<noteq> food right_edge_game
   \<and> tick draws right_edge_game =
       Some (Inr (right_edge_game\<lparr>snake :=
         [\<lparr>px = 0, py = 7\<rparr>, \<lparr>px = 19, py = 7\<rparr>, \<lparr>px = 18, py = 7\<rparr>]\<rparr>))
   \<and> in_grid \<lparr>px = 0, py = 4\<rparr> \<and> is_direction \<lparr>px = - 1, py = 0\<rparr>
   \<and> snake left_edge_game = \<lparr>px = 0, py = 4\<rparr> # tl (snake left_edge_game)
   \<and> direction left_edge_game = \<lparr>px = - 1, py = 0\<rparr>
   \<and> new_head \<lparr>px = 0, py = 4\<rparr> \<lparr>px = - 1, py = 0\<rparr> \<notin> set (snake left_edge_game)
   \<and> new_head \<lparr>px = 0, py = 4\<rparr> \<lparr>px = - 1, py = 0\<rparr> = food left_edge_game
   \<and> candidate draws (random_calls left_edge_game + 2 * 0)
        \<notin> set (new_head \<lparr>px = 0, py = 4\<rparr> \<lparr>px = - 1, py = 0\<rparr> # snake left_edge_game)
   \<and> (\<exists>s'. tick draws left_edge_game = Some (Inr s')
          \<and> snake s' = [\<lparr>px = 19, py = 4\<rparr>, \<lparr>px = 0, py = 4\<rparr>, \<lparr>px = 1, py = 4\<rparr>])"
proof -
  have a: "in_grid \<lparr>px = 19, py = 7\<rparr>" by (simp add: in_grid_def GRID_SIZE_def)
  have b: "is_direction \<lparr>px = 1, py = 0\<rparr>" by (simp add: is_direction_def)
  have c: "snake right_edge_game = \<lparr>px = 19, py = 7\<rparr> # tl (snake right_edge_game)
           \<and> direction right_edge_game = \<lparr>px = 1, py = 0\<rparr>
           \<and> new_head \<lparr>px = 19, py = 7\<rparr> \<lparr>px = 1, py = 0\<rparr> \<notin> set (snake right_edge_game)
           \<and> new_head \<lparr>px = 19, py = 7\<rparr> \<lparr>px = 1, py = 0\<rparr> \<noteq> food right_edge_game"
    by (simp add: right_edge_game_def new_head_simps js_rem_def)
  have a': "in_grid \<lparr>px = 0, py = 4\<rparr>" by (simp add: in_grid_def GRID_SIZE_def)
  have b': "is_direction \<lparr>px = - 1, py = 0\<rparr>" by (simp add: is_direction_def)
  have c': "snake left_edge_game = \<lparr>px = 0, py = 4\<rparr> # tl (snake left_edge_game)
           \<and> direction left_edge_game = \<lparr>px = - 1, py = 0\<rparr>
           \<and> new_head \<lparr>px = 0, py = 4\<rparr> \<lparr>px = - 1, py = 0\<rparr> \<notin> set (snake left_edge_game)
           \<and> new_head \<lparr>px = 0, py = 4\<rparr> \<lparr>px = - 1, py = 0\<rparr> = food left_edge_game
           \<and> candidate draws (random_calls left_edge_game + 2 * 0)
                \<notin> set (new_head \<lparr>px = 0, py = 4\<rparr> \<lparr>px = - 1, py = 0\<rparr> # snake left_edge_game)"
    by (simp add: left_edge_game_def new_head_simps js_rem_def candidate_def draws_def)
  from new_head_wraps [OF a b] c
  have m: "tick draws right_edge_game =
       Some (Inr (right_edge_game\<lparr>snake :=
         \<lparr>px = (px \<lparr>px = 19, py = 7\<rparr> + px \<lparr>px = 1, py = 0\<rparr>) mod GRID_SIZE,
          py = (py \<lparr>px = 19, py = 7\<rparr> + py \<lparr>px = 1, py = 0\<rparr>) mod GRID_SIZE\<rparr>
           # butlast (snake right_edge_game)\<rparr>))"
    by blast
  have m': "\<lparr>px = (px \<lparr>px = 19, py = 7\<rparr> + px \<lparr>px = 1, py = 0\<rparr>) mod GRID_SIZE,
             py = (py \<lparr>px = 19, py = 7\<rparr> + py \<lparr>px = 1, py = 0\<rparr>) mod GRID_SIZE\<rparr>
              # butlast (snake right_edge_game)
            = [\<lparr>px = 0, py = 7\<rparr>, \<lparr>px = 19, py = 7\<rparr>, \<lparr>px = 18, py = 7\<rparr>]"
    by (simp add: right_edge_game_def GRID_SIZE_def)
  from new_head_wraps [OF a' b'] c'
  have e: "\<exists>s'. tick draws left_edge_game = Some (Inr s')
          \<and> snake s' =
               \<lparr>px = (px \<lparr>px = 0, py = 4\<rparr> + px \<lparr>px = - 1, py = 0\<rparr>) mod GRID_SIZE,
                py = (py \<lparr>px = 0, py = 4\<rparr> + py \<lparr>px = - 1, py = 0\<rparr>) mod GRID_SIZE\<rparr>
                 # snake left_edge_game"
    by blast
  have e': "\<lparr>px = (px \<lparr>px = 0, py = 4\<rparr> + px \<lparr>px = - 1, py = 0\<rparr>) mod GRID_SIZE,
             py = (py \<lparr>px = 0, py = 4\<rparr> + py \<lparr>px = - 1, py = 0\<rparr>) mod GRID_SIZE\<rparr>
              # snake left_edge_game
            = [\<lparr>px = 19, py = 4\<rparr>, \<lparr>px = 0, py = 4\<rparr>, \<lparr>px = 1, py = 4\<rparr>]"
    by (simp add: left_edge_game_def GRID_SIZE_def)
  have n: "new_head \<lparr>px = 19, py = 7\<rparr> \<lparr>px = 1, py = 0\<rparr> = \<lparr>px = 0, py = 7\<rparr>
           \<and> in_grid (new_head \<lparr>px = 19, py = 7\<rparr> \<lparr>px = 1, py = 0\<rparr>)"
    by (simp add: new_head_simps js_rem_def in_grid_def GRID_SIZE_def)
  from a b c a' b' c' m [unfolded m'] e [unfolded e'] n show ?thesis by blast
qed

subsection \<open>Direction requests\<close>

text \<open>
  Claim C3 says that direction requests are buffered and tested against the direction
  that was active at the last tick, so that no pair of requests within one tick window
  can reverse the snake. The component has one state cell \<open>direction\<close> and tests every
  request against its latest value. Moving right, the keys ArrowUp and ArrowLeft pressed
  before the next tick leave the direction at \<open>(-1,0)\<close>, the exact opposite of the one
  active at the last tick, and the next tick runs the head into the second cell.
\<close>

theorem double_request_reverses:
  "direction moving_game = \<lparr>px = 1, py = 0\<rparr>
   \<and> onKey ''ArrowLeft'' (onKey ''ArrowUp'' moving_game)
       = moving_game\<lparr>direction := \<lparr>px = - 1, py = 0\<rparr>\<rparr>
   \<and> oppositeDirection (direction moving_game)
        (direction (onKey ''ArrowLeft'' (onKey ''ArrowUp'' moving_game)))
   \<and> tick draws (onKey ''ArrowLeft'' (onKey ''ArrowUp'' moving_game)) =
       Some (Inr (moving_game\<lparr>direction := \<lparr>px = - 1, py = 0\<rparr>, running := False,
                              gameOver := True, highScore := 2, snake_high_score := Some 2\<rparr>))"
proof -
  have k: "onKey ''ArrowLeft'' (onKey ''ArrowUp'' moving_game)
             = moving_game\<lparr>direction := \<lparr>px = - 1, py = 0\<rparr>\<rparr>"
    by (simp add: onKey_def setDirection_def oppositeDirection_def moving_game_def)
  have sn: "snake (moving_game\<lparr>direction := \<lparr>px = - 1, py = 0\<rparr>\<rparr>)
              = \<lparr>px = 5, py = 5\<rparr> # [\<lparr>px = 4, py = 5\<rparr>, \<lparr>px = 3, py = 5\<rparr>]"
    by (simp add: moving_game_def)
  have t: "tick draws (moving_game\<lparr>direction := \<lparr>px = - 1, py = 0\<rparr>\<rparr>) =
       Some (Inr (moving_game\<lparr>direction := \<lparr>px = - 1, py = 0\<rparr>, running := False,
                              gameOver := True, highScore := 2, snake_high_score := Some 2\<rparr>))"
    unfolding tick_unfold [OF sn]
    by (simp add: moving_game_def new_head_simps js_rem_def)
  show ?thesis
    unfolding k t by (simp add: moving_game_def oppositeDirection_def)
qed

text \<open>
  Claim C3, as amended. A direction request takes effect at once on the one direction
  state: a request that is the exact opposite of the direction at the moment of the
  request leaves the whole game unchanged, any other request replaces the direction.
  Hence no single request reverses the direction it found, and a sequence of requests
  is the fold of this rule over the latest direction, the one a request has just set
  included.
\<close>

theorem direction_request_immediate:
  "direction (setDirection d s) = (if oppositeDirection (direction s) d then direction s else d)
   \<and> (oppositeDirection (direction s) d \<longrightarrow> setDirection d s = s)
   \<and> (is_direction (direction s) \<and> is_direction d \<longrightarrow>
        \<not> oppositeDirection (direction s) (direction (setDirection d s)))
   \<and> direction (fold setDirection ds s) =
       fold (\<lambda>d prev. if oppositeDirection prev d then prev else d) ds (direction s)"
proof -
  have a: "direction (setDirection d s)
             = (if oppositeDirection (direction s) d then direction s else d)" for d s
    by (simp add: setDirection_def)
  have b: "oppositeDirection (direction s) d \<longrightarrow> setDirection d s = s"
    by (simp add: setDirection_def)
  have c: "is_direction (direction s) \<and> is_direction d \<longrightarrow>
        \<not> oppositeDirection (direction s) (direction (setDirection d s))"
    unfolding a by (auto simp: is_direction_def oppositeDirection_def)
  have d: "direction (fold setDirection ds s) =
       fold (\<lambda>d prev. if oppositeDirection prev d then prev else d) ds (direction s)"
    by (induction ds arbitrary: s) (simp_all add: a)
  from a b c d show ?thesis by blast
qed

text \<open>Moving right, a request for left is dropped and a request for up is taken.\<close>

theorem direction_request_immediate_witness:
  "oppositeDirection (direction moving_game) \<lparr>px = - 1, py = 0\<rparr>
   \<and> setDirection \<lparr>px = - 1, py = 0\<rparr> moving_game = moving_game
   \<and> is_direction (direction moving_game) \<and> is_direction \<lparr>px = 0, py = - 1\<rparr>
   \<and> direction (setDirection \<lparr>px = 0, py = - 1\<rparr> moving_game) = \<lparr>px = 0, py = - 1\<rparr>
   \<and> \<not> oppositeDirection (direction moving_game)
         (direction (setDirection \<lparr>px = 0, py = - 1\<rparr> moving_game))"
proof -
  have a: "oppositeDirection (direction moving_game) \<lparr>px = - 1, py = 0\<rparr>"
    by (simp add: moving_game_def oppositeDirection_def)
  have b: "is_direction (direction moving_game) \<and> is_direction \<lparr>px = 0, py = - 1\<rparr>"
    by (simp add: moving_game_def is_direction_def)
  have c: "\<not> oppositeDirection (direction moving_game) \<lparr>px = 0, py = - 1\<rparr>"
    by (simp add: moving_game_def oppositeDirection_def)
  from direction_request_immediate [of "\<lparr>px = - 1, py = 0\<rparr>" moving_game "[]"]
       direction_request_immediate [of "\<lparr>px = 0, py = - 1\<rparr>" moving_game "[]"] a b c
  show ?thesis by simp
qed

subsection \<open>Speed\<close>

text \<open>The setter alone stores any rate unchanged; the bounds are those of the slider.\<close>

lemma setSpeed_stores: "setSpeed v s = s\<lparr>speed := v\<rparr> \<and> speed (setSpeed v s) = v"
  by (simp add: setSpeed_def)

text \<open>
  Claim C9. For every requested tick rate, a change of the speed slider stores a rate
  between 3 and 20 ticks per second: a request below 3 is stored as 3, a request above 20
  as 20, a request in between as it is. The change always returns a game and touches no
  other state cell.
\<close>

theorem speed_within_bounds:
  "3 \<le> speed (onChange_speed v s) \<and> speed (onChange_speed v s) \<le> 20
   \<and> (v < 3 \<longrightarrow> speed (onChange_speed v s) = 3)
   \<and> (20 < v \<longrightarrow> speed (onChange_speed v s) = 20)
   \<and> (3 \<le> v \<and> v \<le> 20 \<longrightarrow> speed (onChange_speed v s) = v)
   \<and> onChange_speed v s = s\<lparr>speed := speed (onChange_speed v s)\<rparr>
   \<and> perform rnd (SetSpeed v) s = Some (Inr (onChange_speed v s))"
  by (simp add: onChange_speed_def setSpeed_def range_value_def)

text \<open>Requests of 1, 50 and 12 are stored as 3, 20 and 12.\<close>

theorem speed_within_bounds_witness:
  "(1::int) < 3 \<and> speed (onChange_speed 1 moving_game) = 3
   \<and> (20::int) < 50 \<and> speed (onChange_speed 50 moving_game) = 20
   \<and> (3::int) \<le> 12 \<and> (12::int) \<le> 20 \<and> speed (onChange_speed 12 moving_game) = 12
   \<and> perform draws (SetSpeed 50) moving_game = Some (Inr (moving_game\<lparr>speed := 20\<rparr>))"
proof -
  have e: "speed (onChange_speed 50 moving_game) = 20"
    using speed_within_bounds [of 50 moving_game draws] by simp
  have f: "onChange_speed 50 moving_game
             = moving_game\<lparr>speed := speed (onChange_speed 50 moving_game)\<rparr>"
    using speed_within_bounds [of 50 moving_game draws] by blast
  have "onChange_speed 50 moving_game = moving_game\<lparr>speed := 20\<rparr>"
    using f [unfolded e] .
  with speed_within_bounds [of 1 moving_game draws]
       speed_within_bounds [of 50 moving_game draws]
       speed_within_bounds [of 12 moving_game draws]
  show ?thesis by simp
qed

subsection \<open>Food placement\<close>

text \<open>
  Claim C7 says that food placement always terminates and reports a distinct board-full
  condition when the snake occupies every cell. \<open>randomFoodPosition\<close> has no such result
  and no bound on its loop: with all 400 cells excluded it never returns.
\<close>

theorem full_board_never_returns:
  "randomFoodPosition draws all_cells 0 = None"
  by (rule randomFoodPosition_diverges) (simp add: all_cells_iff draws_in_grid)

text \<open>
  Claim C7, as amended. Food placement is rejection sampling without a bound: it returns
  a cell outside the excluded ones as soon as the random source draws one, and it returns
  nothing at all, neither a cell nor a report, when every cell the source draws is
  excluded, as it is when the snake occupies the whole grid.
\<close>

theorem food_placement_rejection_sampling:
  "(candidate rnd (n + 2 * k) \<notin> set exclude \<longrightarrow>
      (\<exists>c m. randomFoodPosition rnd exclude n = Some (c, m) \<and> c \<notin> set exclude))
   \<and> ((\<forall>j. candidate rnd (n + 2 * j) \<in> set exclude) \<longrightarrow>
        randomFoodPosition rnd exclude n = None)"
  using randomFoodPosition_returns [of rnd n k exclude]
    randomFoodPosition_diverges [of rnd n exclude]
  by blast

text \<open>With only \<open>(6,5)\<close> excluded the second draw is free; with every cell excluded none is.\<close>

theorem food_placement_rejection_sampling_witness:
  "candidate draws (0 + 2 * 1) \<notin> set [\<lparr>px = 6, py = 5\<rparr>]
   \<and> (\<exists>c m. randomFoodPosition draws [\<lparr>px = 6, py = 5\<rparr>] 0 = Some (c, m)
          \<and> c \<notin> set [\<lparr>px = 6, py = 5\<rparr>])
   \<and> (\<forall>j. candidate draws (0 + 2 * j) \<in> set all_cells)
   \<and> randomFoodPosition draws all_cells 0 = None"
proof -
  have a: "candidate draws (0 + 2 * 1) \<notin> set [\<lparr>px = 6, py = 5\<rparr>]"
    by (simp add: candidate_def draws_def)
  have b: "\<forall>j. candidate draws (0 + 2 * j) \<in> set all_cells"
    by (simp add: all_cells_iff draws_in_grid)
  from food_placement_rejection_sampling [of draws 0 1 "[\<lparr>px = 6, py = 5\<rparr>]"]
       food_placement_rejection_sampling [of draws 0 0 all_cells] a b
  show ?thesis by blast
qed

text \<open>
  Claim C4 says that food never lands on the snake at the moment it is placed, at
  creation and at reset as well as after eating. The tick passes the grown snake as
  \<open>exclude\<close>; creation and \<open>resetGame\<close> call \<open>randomFoodPosition\<close> with no argument, so
  nothing is excluded. When the two draws are both 10, the food of a reset game and of a
  fresh component is placed at \<open>(10,10)\<close>, the one cell of the snake.
\<close>

theorem reset_food_on_snake:
  "resetGame centre_draws moving_game =
     Some (moving_game\<lparr>snake := [\<lparr>px = 10, py = 10\<rparr>], direction := \<lparr>px = 1, py = 0\<rparr>,
                       food := \<lparr>px = 10, py = 10\<rparr>, score := 0, gameOver := False,
                       running := False, random_calls := 2\<rparr>)
   \<and> initial centre_draws None 0 =
     Some \<lparr>snake = [\<lparr>px = 10, py = 10\<rparr>], direction = \<lparr>px = 1, py = 0\<rparr>,
           food = \<lparr>px = 10, py = 10\<rparr>, running = False, speed = 8, score = 0,
           gameOver = False, highScore = 0, snake_high_score = None, random_calls = 2\<rparr>"
  by (simp add: resetGame_def initial_def randomFoodPosition_empty candidate_def
      centre_draws_def GRID_SIZE_def moving_game_def)

subsection \<open>High score\<close>

lemma tick_highScore:
  assumes "tick rnd s = Some (Inr s')"
  shows "highScore s \<le> highScore s'"
proof (cases "snake s")
  case Nil
  with assms show ?thesis by (simp add: tick_def)
next
  case (Cons h t)
  from assms show ?thesis
    unfolding tick_unfold [OF Cons]
    by (auto split: if_splits option.splits)
qed

text \<open>
  The stored entry and the state cell agree: a tick keeps them in step, because the
  collision branch writes the same number to both and the other branches write neither.
\<close>

lemma tick_stored:
  assumes "tick rnd s = Some (Inr s')" and "stored_high_score s = highScore s"
  shows "stored_high_score s' = highScore s'"
proof (cases "snake s")
  case Nil
  with assms show ?thesis by (simp add: tick_def)
next
  case (Cons h t)
  from assms show ?thesis
    unfolding tick_unfold [OF Cons]
    by (auto simp: stored_high_score_def split: if_splits option.splits)
qed

lemma resetGame_highScore:
  assumes "resetGame rnd s = Some s'"
  shows "highScore s' = highScore s \<and> snake_high_score s' = snake_high_score s"
  using assms by (auto simp: resetGame_def split: option.splits)

lemma handleStart_highScore:
  assumes "handleStart rnd s = Some s'"
  shows "highScore s' = highScore s \<and> snake_high_score s' = snake_high_score s"
  using assms resetGame_highScore [of rnd s]
  by (auto simp: handleStart_def split: option.splits if_splits)

lemma perform_highScore:
  assumes "perform rnd a s = Some (Inr s')"
  shows "highScore s \<le> highScore s'
         \<and> (stored_high_score s = highScore s \<longrightarrow> stored_high_score s' = highScore s')"
proof (cases a)
  case Tick
  with assms tick_highScore [of rnd s s'] tick_stored [of rnd s s'] show ?thesis
    by (auto simp: game_loop_def split: if_splits)
next
  case (Key key)
  with assms show ?thesis by (auto simp: onKey_def setDirection_def stored_high_score_def)
next
  case (SetDirection d)
  with assms show ?thesis by (auto simp: setDirection_def stored_high_score_def)
next
  case Start
  with assms handleStart_highScore [of rnd s] show ?thesis
    by (auto simp: stored_high_score_def)
next
  case Pause
  with assms show ?thesis by (auto simp: handlePause_def stored_high_score_def)
next
  case Toggle
  with assms show ?thesis by (auto simp: toggle_def stored_high_score_def)
next
  case Restart
  with assms show ?thesis by (auto simp: restart_def stored_high_score_def)
next
  case Reset
  with assms resetGame_highScore [of rnd s] show ?thesis
    by (auto simp: stored_high_score_def)
next
  case (SetSpeed v)
  with assms show ?thesis
    by (auto simp: onChange_speed_def setSpeed_def stored_high_score_def)
qed

lemma run_highScore:
  "run rnd as s = Some (Inr s') \<Longrightarrow>
   highScore s \<le> highScore s'
   \<and> (stored_high_score s = highScore s \<longrightarrow> stored_high_score s' = highScore s')"
proof (induction as arbitrary: s)
  case Nil
  then show ?case by simp
next
  case (Cons a as)
  from Cons.prems obtain s1 where p: "perform rnd a s = Some (Inr s1)"
    and r: "run rnd as s1 = Some (Inr s')"
    by (auto split: option.splits sum.splits)
  from perform_highScore [OF p] Cons.IH [OF r] show ?case by auto
qed

lemma initial_stored:
  "\<exists>s0. initial rnd v n = Some s0 \<and> stored_high_score s0 = highScore s0
        \<and> snake_high_score s0 = v"
  by (simp add: initial_def randomFoodPosition_empty stored_high_score_def)

text \<open>The button Reset High writes 0 whatever the high score was.\<close>

lemma resetHigh_zero: "highScore (resetHigh s) = 0 \<and> snake_high_score (resetHigh s) = Some 0"
  by (simp add: resetHigh_def)

text \<open>The two scripted games, step by step.\<close>

lemma initial_scripted: "initial scripted_draws None 0 = Some fresh_game"
  by (simp add: initial_def randomFoodPosition_empty candidate_def scripted_draws_def
      GRID_SIZE_def fresh_game_def)

lemma run_first_game: "run scripted_draws first_game fresh_game = Some (Inr after_first_game)"
  unfolding first_game_def
  by (simp add: game_loop_def handleStart_def tick_cases new_head_simps js_rem_def
      randomFoodPosition_unfold [of scripted_draws] candidate_def scripted_draws_def
      onKey_def setDirection_def oppositeDirection_def fresh_game_def after_first_game_def)

lemma run_second_game:
  "run scripted_draws second_game after_first_game = Some (Inr after_second_game)"
  unfolding second_game_def
  by (simp add: game_loop_def handleStart_def resetGame_def tick_cases new_head_simps js_rem_def
      randomFoodPosition_unfold [of scripted_draws] candidate_def scripted_draws_def
      GRID_SIZE_def onKey_def setDirection_def oppositeDirection_def after_first_game_def
      after_second_game_def)

text \<open>
  Claim C8. The persisted high score never decreases. A fresh component starts with the
  state cell equal to the stored entry as it is read back. Over any run of ticks, key
  presses, direction requests, start, pause, toggle, restart, reset and speed changes
  from such a game, the two are equal again at the end and neither has decreased. A tick
  that hits the body sets both to the larger of the old high score and the score;
  resetting the game always returns and leaves both as they are.
\<close>

theorem high_score_monotone:
  "(\<exists>s0. initial rnd v n = Some s0 \<and> stored_high_score s0 = highScore s0
          \<and> snake_high_score s0 = v)
   \<and> (stored_high_score s = highScore s \<and> run rnd as s = Some (Inr s') \<longrightarrow>
        stored_high_score s' = highScore s'
        \<and> stored_high_score s \<le> stored_high_score s'
        \<and> highScore s \<le> highScore s')
   \<and> (run rnd as s = Some (Inr s') \<longrightarrow> highScore s \<le> highScore s')
   \<and> (snake s = h # t \<and> new_head h (direction s) \<in> set (snake s) \<longrightarrow>
        (\<exists>s1. tick rnd s = Some (Inr s1) \<and> highScore s1 = max (highScore s) (score s)
           \<and> snake_high_score s1 = Some (max (highScore s) (score s))
           \<and> stored_high_score s1 = max (highScore s) (score s)))
   \<and> (\<exists>s2. resetGame rnd s = Some s2 \<and> highScore s2 = highScore s
           \<and> snake_high_score s2 = snake_high_score s
           \<and> stored_high_score s2 = stored_high_score s)"
proof -
  note i = initial_stored [of rnd v n]
  have a: "stored_high_score s = highScore s \<and> run rnd as s = Some (Inr s') \<longrightarrow>
        stored_high_score s' = highScore s'
        \<and> stored_high_score s \<le> stored_high_score s'
        \<and> highScore s \<le> highScore s'"
    using run_highScore [of rnd as s s'] by auto
  have a': "run rnd as s = Some (Inr s') \<longrightarrow> highScore s \<le> highScore s'"
    using run_highScore [of rnd as s s'] by blast
  have b: "snake s = h # t \<and> new_head h (direction s) \<in> set (snake s) \<longrightarrow>
        (\<exists>s1. tick rnd s = Some (Inr s1) \<and> highScore s1 = max (highScore s) (score s)
           \<and> snake_high_score s1 = Some (max (highScore s) (score s))
           \<and> stored_high_score s1 = max (highScore s) (score s))"
    by (auto simp: tick_collision stored_high_score_def)
  have c: "\<exists>s2. resetGame rnd s = Some s2 \<and> highScore s2 = highScore s
           \<and> snake_high_score s2 = snake_high_score s
           \<and> stored_high_score s2 = stored_high_score s"
    by (simp add: resetGame_def randomFoodPosition_empty stored_high_score_def)
  from i a a' b c show ?thesis by blast
qed

text \<open>
  The scenario of the specification. A fresh component with nothing stored has high
  score 0; the first game ends with score 3 and leaves the high score, stored entry
  included, at 3; the second game ends with score 1 and both are still 3.
\<close>

theorem high_score_monotone_witness:
  "initial scripted_draws None 0 = Some fresh_game
   \<and> stored_high_score fresh_game = highScore fresh_game \<and> stored_high_score fresh_game = 0
   \<and> run scripted_draws first_game fresh_game = Some (Inr after_first_game)
   \<and> score after_first_game = 3 \<and> highScore after_first_game = 3
   \<and> snake_high_score after_first_game = Some 3 \<and> stored_high_score after_first_game = 3
   \<and> run scripted_draws second_game after_first_game = Some (Inr after_second_game)
   \<and> score after_second_game = 1 \<and> highScore after_second_game = 3
   \<and> snake_high_score after_second_game = Some 3 \<and> stored_high_score after_second_game = 3
   \<and> stored_high_score fresh_game \<le> stored_high_score after_first_game
   \<and> stored_high_score after_first_game \<le> stored_high_score after_second_game
   \<and> snake tail_hit_game = \<lparr>px = 5, py = 5\<rparr> # tl (snake tail_hit_game)
   \<and> new_head \<lparr>px = 5, py = 5\<rparr> (direction tail_hit_game) \<in> set (snake tail_hit_game)
   \<and> (\<exists>s1. tick scripted_draws tail_hit_game = Some (Inr s1) \<and> highScore s1 = 3
          \<and> snake_high_score s1 = Some 3 \<and> stored_high_score s1 = 3)"
proof -
  have a: "snake tail_hit_game = \<lparr>px = 5, py = 5\<rparr> # tl (snake tail_hit_game)"
    by (simp add: tail_hit_game_def)
  have b: "new_head \<lparr>px = 5, py = 5\<rparr> (direction tail_hit_game) \<in> set (snake tail_hit_game)"
    by (simp add: tail_hit_game_def new_head_simps js_rem_def)
  have c: "max (highScore tail_hit_game) (score tail_hit_game) = 3"
    by (simp add: tail_hit_game_def)
  have d: "score after_first_game = 3 \<and> highScore after_first_game = 3
           \<and> snake_high_score after_first_game = Some 3 \<and> stored_high_score after_first_game = 3
           \<and> highScore fresh_game = 0 \<and> stored_high_score fresh_game = 0
           \<and> score after_second_game = 1 \<and> highScore after_second_game = 3
           \<and> snake_high_score after_second_game = Some 3
           \<and> stored_high_score after_second_game = 3"
    by (simp add: after_first_game_def after_second_game_def fresh_game_def
        stored_high_score_def)
  from high_score_monotone [of scripted_draws None 0 fresh_game first_game after_first_game
         "\<lparr>px = 5, py = 5\<rparr>" "tl (snake tail_hit_game)"]
       high_score_monotone [of scripted_draws None 0 after_first_game second_game
         after_second_game "\<lparr>px = 5, py = 5\<rparr>" "tl (snake tail_hit_game)"]
       high_score_monotone [of scripted_draws None 0 tail_hit_game "[]" tail_hit_game
         "\<lparr>px = 5, py = 5\<rparr>" "tl (snake tail_hit_game)"]
       initial_scripted run_first_game run_second_game a b c d
  show ?thesis by simp
qed

end
